theory Spec2Isabelle
  imports Main "HOL-Library.Word"
begin

section \<open>Persisted tables\<close>

type_synonym bytes = "8 word list"
type_synonym datetime = nat

text \<open>
  Modelled from the spec: the Note, File and User tables, whose schema is not among the
  sources. The spec gives \<open>Note(id, ownerId, title, content)\<close> with a unique id and
  \<open>File(id, blob)\<close> with a unique id; a table with a unique id is a map from the id to
  the other columns. Of a user the code reads the username only.
\<close>

record note_row =
  ownerId :: string
  title :: string
  content :: string

text \<open>
  The Image table is the one of \<open>migration.sql\<close>: the five columns that the migration
  copies, and the new nullable column \<open>noteId\<close>. \<open>None\<close> is SQL's NULL. The table has
  no primary key, so it is a list of rows; the unique index on \<open>fileId\<close> and the two
  foreign keys are enforced when a row is inserted.
\<close>

record image_cols =
  fileId :: string
  contentType :: string
  altText :: "string option"
  createdAt :: datetime
  updatedAt :: datetime

record image_row = image_cols +
  noteId :: "string option"

text \<open>
  The journal is a ghost column: every write the ORM performs appends one entry, so the
  order of the writes of one request can be read off the final state.
\<close>

datatype db_write =
    NoteCreate string
  | NoteUpdate string
  | FileCreate string
  | ImageCreate string

record database =
  User :: "string \<rightharpoonup> string"
  Note :: "string \<rightharpoonup> note_row"
  File :: "string \<rightharpoonup> bytes"
  Image :: "image_row list"
  journal :: "db_write list"

section \<open>The migration \<open>20230711042606_note_images\<close>\<close>

datatype failure =
    ENOENT string
  | UniqueConstraint string
  | ForeignKeyConstraint string
  | RecordNotFound string

text \<open>
  \<open>INSERT INTO new_Image (altText, contentType, createdAt, fileId, updatedAt) SELECT ...
  FROM Image\<close>: one new row per old row, \<open>noteId\<close> left to its default NULL. The old
  table may have had any further columns (the \<open>more\<close> part of the row); they are dropped
  with the table.
\<close>

definition insert_select :: "'a image_cols_scheme \<Rightarrow> image_row" where
  "insert_select r =
     \<lparr>fileId = fileId r, contentType = contentType r, altText = altText r,
      createdAt = createdAt r, updatedAt = updatedAt r, noteId = None\<rparr>"

text \<open>
  The whole script: fill \<open>new_Image\<close>, drop the old table, rename, then
  \<open>CREATE UNIQUE INDEX Image_fileId_key\<close>, which fails on a duplicate \<open>fileId\<close>.
  Foreign keys are switched off while it runs, and \<open>PRAGMA foreign_key_check\<close> only reports.
\<close>

definition migration :: "'a image_cols_scheme list \<Rightarrow> failure + image_row list" where
  "migration old =
     (let new_Image = map insert_select old
      in if distinct (map fileId new_Image) then Inr new_Image
         else Inl (UniqueConstraint ''Image_fileId_key''))"

section \<open>The note loader (\<open>notes.$noteId_.edit.tsx\<close>)\<close>

record loaded_note =
  l_id :: string
  l_title :: string
  l_content :: string
  l_images :: "(string \<times> string option) list"

datatype thrown_response = Response string nat

text \<open>
  \<open>prisma.note.findFirst({where: {id, ownerId}})\<close>: the id is unique, so the row with
  that id is the only candidate, and it matches when its owner is the given one.
\<close>

definition note_findFirst :: "database \<Rightarrow> string \<Rightarrow> string \<Rightarrow> (string \<times> note_row) option" where
  "note_findFirst db i uid =
     (case Note db i of
        None \<Rightarrow> None
      | Some n \<Rightarrow> if ownerId n = uid then Some (i, n) else None)"

text \<open>
  \<open>userId\<close> is what \<open>requireUserId(request)\<close> returned; the selected \<open>images\<close> are the
  Image rows whose \<open>noteId\<close> is the note's id, each cut down to \<open>fileId\<close> and \<open>altText\<close>.
\<close>

definition loader :: "string \<Rightarrow> string \<Rightarrow> database \<Rightarrow> thrown_response + loaded_note" where
  "loader userId params_noteId db =
     (case note_findFirst db params_noteId userId of
        None \<Rightarrow> Inl (Response ''Not found'' 404)
      | Some (i, n) \<Rightarrow>
          Inr \<lparr>l_id = i, l_title = title n, l_content = content n,
               l_images = map (\<lambda>r. (fileId r, altText r))
                            (filter (\<lambda>r. noteId r = Some i) (Image db))\<rparr>)"

section \<open>The note editor's action (\<open>note-editor.tsx\<close>)\<close>

subsection \<open>The schemas and the parsed submission\<close>

text \<open>The stored upload that the file upload handler leaves in the form data.\<close>

record upload =
  filepath :: string
  u_type :: string
  u_name :: string

record image_fieldset =
  f_image :: upload
  f_altText :: "string option"

text \<open>
  The payload as the form data gives it: an optional \<open>id\<close> (\<open>None\<close> is JavaScript's
  \<open>undefined\<close>), two strings and the image fieldsets \<open>images[0]\<close>, \<open>images[1]\<close>, ... in
  their order. A form without an image fieldset has no \<open>images\<close> key at all, so the
  empty list stands for an \<open>images\<close> that is \<open>undefined\<close>. Every field that is there
  has its schema's type.
\<close>

record note_editor =
  v_id :: "string option"
  v_title :: string
  v_content :: string
  v_images :: "image_fieldset list"

datatype issue = too_small nat | too_big nat | required

text \<open>
  \<open>z.string().min(lo).max(hi)\<close>: both checks run, each adds its issue. \<open>length\<close> is
  JavaScript's \<open>.length\<close>, one \<open>char\<close> for each code unit.
\<close>

definition z_string_min_max :: "nat \<Rightarrow> nat \<Rightarrow> string \<Rightarrow> issue list" where
  "z_string_min_max lo hi s =
     (if length s < lo then [too_small lo] else []) @
     (if hi < length s then [too_big hi] else [])"

text \<open>
  \<open>images: z.array(ServerImageFieldsetSchema)\<close> is not optional: an \<open>images\<close> that is
  \<open>undefined\<close> raises the issue \<open>Required\<close>.
\<close>

definition z_array :: "'a list \<Rightarrow> issue list" where
  "z_array xs = (if xs = [] then [required] else [])"

text \<open>
  \<open>ServerNoteEditorSchema\<close> with \<open>acceptMultipleErrors: () => true\<close>: the issues of every
  field, keyed by the field's name, fields without an issue left out.
\<close>

definition ServerNoteEditorSchema :: "note_editor \<Rightarrow> (string \<times> issue list) list" where
  "ServerNoteEditorSchema p =
     filter (\<lambda>(name, issues). issues \<noteq> [])
       [(''title'', z_string_min_max 1 100 (v_title p)),
        (''content'', z_string_min_max 1 10000 (v_content p)),
        (''images'', z_array (v_images p))]"

record form_data =
  fd_intent :: "string option"
  fd_payload :: note_editor

record submission =
  s_intent :: string
  s_payload :: note_editor
  s_error :: "(string \<times> issue list) list"
  s_value :: "note_editor option"

text \<open>
  \<open>parse(formData, {schema, acceptMultipleErrors})\<close>: the intent is \<open>submit\<close> unless a
  button of the form set another one; the value is there when the schema raised no issue.
\<close>

definition parse :: "form_data \<Rightarrow> submission" where
  "parse formData =
     (let payload = fd_payload formData;
          errors = ServerNoteEditorSchema payload
      in \<lparr>s_intent = (case fd_intent formData of None \<Rightarrow> ''submit'' | Some i \<Rightarrow> i),
          s_payload = payload,
          s_error = errors,
          s_value = (if errors = [] then Some payload else None)\<rparr>)"

subsection \<open>The ORM calls\<close>

text \<open>
  What a request reads from outside the database: the ids the ORM generates (the
  \<open>k\<close>-th id it draws during the request), the clock (its reading when the row with the
  \<open>k\<close>-th id is written), and the files on disk.
\<close>

record env =
  cuid :: "nat \<Rightarrow> string"
  now :: "nat \<Rightarrow> datetime"
  readFile :: "string \<rightharpoonup> bytes"

record selected_note =
  n_id :: string
  n_username :: string

text \<open>
  \<open>prisma.note.update\<close> (lines 124 to 128), \<open>prisma.note.create\<close> (line 130),
  \<open>prisma.file.create\<close> (lines 134 to 139) and \<open>prisma.image.create\<close> (lines 140 to
  147). Each call is atomic: it writes its row and returns, or raises and writes nothing.
  The two creates of a row with an id take the generated id as \<open>i\<close> and raise when it is
  taken. \<open>select: {id, owner: {username}}\<close> needs the owner's row; \<open>ownerId\<close> is a foreign
  key to User. The names of the constraints of Note and File follow those of Image.
\<close>

definition note_update :: "database \<Rightarrow> string \<Rightarrow> note_row \<Rightarrow> failure + selected_note \<times> database" where
  "note_update db i data =
     (case Note db i of
        None \<Rightarrow> Inl (RecordNotFound ''Note'')
      | Some n \<Rightarrow>
          (case User db (ownerId data) of
             None \<Rightarrow> Inl (ForeignKeyConstraint ''Note_ownerId_fkey'')
           | Some u \<Rightarrow>
               Inr (\<lparr>n_id = i, n_username = u\<rparr>,
                    db\<lparr>Note := (Note db)(i \<mapsto> n\<lparr>ownerId := ownerId data, title := title data,
                                                content := content data\<rparr>),
                       journal := journal db @ [NoteUpdate i]\<rparr>)))"

definition note_create :: "database \<Rightarrow> string \<Rightarrow> note_row \<Rightarrow> failure + selected_note \<times> database" where
  "note_create db i data =
     (case Note db i of
        Some n \<Rightarrow> Inl (UniqueConstraint ''Note_pkey'')
      | None \<Rightarrow>
          (case User db (ownerId data) of
             None \<Rightarrow> Inl (ForeignKeyConstraint ''Note_ownerId_fkey'')
           | Some u \<Rightarrow>
               Inr (\<lparr>n_id = i, n_username = u\<rparr>,
                    db\<lparr>Note := (Note db)(i \<mapsto> data),
                       journal := journal db @ [NoteCreate i]\<rparr>)))"

definition file_create :: "database \<Rightarrow> string \<Rightarrow> bytes \<Rightarrow> failure + string \<times> database" where
  "file_create db i blob =
     (case File db i of
        Some b \<Rightarrow> Inl (UniqueConstraint ''File_pkey'')
      | None \<Rightarrow>
          Inr (i, db\<lparr>File := (File db)(i \<mapsto> blob), journal := journal db @ [FileCreate i]\<rparr>))"

text \<open>
  The constraints are those of \<open>migration.sql\<close>: the unique index \<open>Image_fileId_key\<close>,
  the foreign key \<open>Image_fileId_fkey\<close> to File, and \<open>Image_noteId_fkey\<close> to Note, which a
  NULL \<open>noteId\<close> satisfies.
\<close>

definition image_create :: "database \<Rightarrow> image_row \<Rightarrow> failure + database" where
  "image_create db data =
     (if fileId data \<in> set (map fileId (Image db)) then Inl (UniqueConstraint ''Image_fileId_key'')
      else if File db (fileId data) = None then Inl (ForeignKeyConstraint ''Image_fileId_fkey'')
      else if (case noteId data of None \<Rightarrow> False | Some n \<Rightarrow> Note db n = None)
        then Inl (ForeignKeyConstraint ''Image_noteId_fkey'')
      else Inr (db\<lparr>Image := Image db @ [data],
                   journal := journal db @ [ImageCreate (fileId data)]\<rparr>))"

subsection \<open>The action\<close>

datatype status = idle | error

datatype response =
    json status submission nat
  | redirectWithToast string string
  | Thrown failure

text \<open>JavaScript's truthiness of \<open>id\<close>: \<open>undefined\<close> and the empty string are falsy.\<close>

fun truthy :: "string option \<Rightarrow> bool" where
  "truthy None = False"
| "truthy (Some s) = (s \<noteq> [])"

text \<open>
  The Image row that the loop writes for one fieldset, its file stored under \<open>fid\<close>, the
  \<open>k\<close>-th id of the request. Both timestamps are the clock's reading at this insert.
\<close>

definition image_data :: "env \<Rightarrow> string \<Rightarrow> nat \<Rightarrow> string \<Rightarrow> image_fieldset \<Rightarrow> image_row" where
  "image_data w nid k fid e =
     \<lparr>fileId = fid, contentType = u_type (f_image e), altText = f_altText e,
      createdAt = now w k, updatedAt = now w k, noteId = Some nid\<rparr>"

text \<open>
  Lines 133 to 148, \<open>for (const {image, altText} of images ?? [])\<close>; the schema has
  made \<open>images\<close> a list with an entry, so \<open>?? []\<close> changes nothing. The file is read first, then its
  File row is created, then the Image row; \<open>altText ?? null\<close> turns a missing alt text
  into NULL, \<open>None\<close> on both sides here. There is no transaction and no \<open>catch\<close>: when
  a call raises, the loop ends with the error and the database as it is at that point.
  \<open>k\<close> counts the ids drawn so far.
\<close>

fun save_images :: "env \<Rightarrow> string \<Rightarrow> nat \<Rightarrow> image_fieldset list \<Rightarrow> database \<Rightarrow> failure option \<times> database" where
  "save_images w nid k [] db = (None, db)"
| "save_images w nid k (e # es) db =
     (case readFile w (filepath (f_image e)) of
        None \<Rightarrow> (Some (ENOENT (filepath (f_image e))), db)
      | Some blob \<Rightarrow>
          (case file_create db (cuid w k) blob of
             Inl err \<Rightarrow> (Some err, db)
           | Inr (fid, db1) \<Rightarrow>
               (case image_create db1 (image_data w nid k fid e) of
                  Inl err \<Rightarrow> (Some err, db1)
                | Inr db2 \<Rightarrow> save_images w nid (Suc k) es db2)))"

text \<open>
  Lines 95 to 131: the ownership check and the update when \<open>id\<close> is truthy, the create
  otherwise. \<open>Inl\<close> is the response that ends the request at this point.
\<close>

definition save_note :: "env \<Rightarrow> string \<Rightarrow> submission \<Rightarrow> note_editor \<Rightarrow> database \<Rightarrow> response + selected_note \<times> database" where
  "save_note w userId sub v db =
     (let data = \<lparr>ownerId = userId, title = v_title v, content = v_content v\<rparr>
      in if truthy (v_id v) then
           (case note_findFirst db (the (v_id v)) userId of
              None \<Rightarrow> Inl (json error sub 404)
            | Some existingNote \<Rightarrow>
                (case note_update db (the (v_id v)) data of
                   Inl err \<Rightarrow> Inl (Thrown err)
                 | Inr r \<Rightarrow> Inr r))
         else
           (case note_create db (cuid w 0) data of
              Inl err \<Rightarrow> Inl (Thrown err)
            | Inr r \<Rightarrow> Inr r))"

text \<open>
  \<open>userId\<close> is what \<open>requireUserId(request)\<close> returned and \<open>formData\<close> what the upload
  handlers decoded. The result is the response and the database the request leaves
  behind; \<open>Thrown\<close> is an exception that nothing in the action catches.
  \<open>redirectWithToast\<close> is kept as the call it is, with its target and the toast's title.
\<close>

definition action :: "env \<Rightarrow> string \<Rightarrow> form_data \<Rightarrow> database \<Rightarrow> response \<times> database" where
  "action w userId formData db =
     (let sub = parse formData
      in if s_intent sub \<noteq> ''submit'' then (json idle sub 200, db)
         else
           (case s_value sub of
              None \<Rightarrow> (json error sub 400, db)
            | Some v \<Rightarrow>
                (case save_note w userId sub v db of
                   Inl resp \<Rightarrow> (resp, db)
                 | Inr (note, db1) \<Rightarrow>
                     (case save_images w (n_id note) 1 (v_images v) db1 of
                        (Some err, db2) \<Rightarrow> (Thrown err, db2)
                      | (None, db2) \<Rightarrow>
                          (redirectWithToast
                             (''/users/'' @ n_username note @ ''/notes/'' @ n_id note)
                             (if truthy (v_id v) then ''Note updated'' else ''Note created''),
                           db2)))))"

text \<open>
  The ids that the loop draws for the files of the entries \<open>es\<close>, the first of them
  being the \<open>k\<close>-th id of the request.
\<close>

definition file_ids :: "env \<Rightarrow> nat \<Rightarrow> 'a list \<Rightarrow> string list" where
  "file_ids w k es = map (cuid w) [k..<k + length es]"

text \<open>The Image rows of the entries \<open>es\<close>, the first of them written with the \<open>k\<close>-th id.\<close>

definition image_rows :: "env \<Rightarrow> string \<Rightarrow> nat \<Rightarrow> image_fieldset list \<Rightarrow> image_row list" where
  "image_rows w nid k es = map (\<lambda>(j, e). image_data w nid j (cuid w j) e) (enumerate k es)"

section \<open>A small database to run the definitions on\<close>

definition example_env :: env where
  "example_env =
     \<lparr>cuid = (\<lambda>k. if k = 0 then ''n9'' else if k = 1 then ''f1'' else ''f2''),
      now = (\<lambda>k. 7 + k),
      readFile = [''/tmp/a'' \<mapsto> [1, 2]]\<rparr>"

definition example_db :: database where
  "example_db =
     \<lparr>User = [''u1'' \<mapsto> ''kody'', ''u2'' \<mapsto> ''ann''],
      Note = [''n1'' \<mapsto> \<lparr>ownerId = ''u1'', title = ''t'', content = ''c''\<rparr>,
              ''n2'' \<mapsto> \<lparr>ownerId = ''u2'', title = ''t2'', content = ''c2''\<rparr>],
      File = [''f0'' \<mapsto> [9]],
      Image = [\<lparr>fileId = ''f0'', contentType = ''image/png'', altText = Some ''fridge'',
                createdAt = 1, updatedAt = 2, noteId = Some ''n1''\<rparr>],
      journal = []\<rparr>"

definition example_upload :: "string \<Rightarrow> string option \<Rightarrow> image_fieldset" where
  "example_upload path alt =
     \<lparr>f_image = \<lparr>filepath = path, u_type = ''image/jpeg'', u_name = ''a.jpg''\<rparr>, f_altText = alt\<rparr>"

definition example_form :: "string option \<Rightarrow> string \<Rightarrow> string \<Rightarrow> image_fieldset list \<Rightarrow> form_data" where
  "example_form i t c imgs =
     \<lparr>fd_intent = None, fd_payload = \<lparr>v_id = i, v_title = t, v_content = c, v_images = imgs\<rparr>\<rparr>"

definition example_update :: form_data where
  "example_update =
     example_form (Some ''n1'') ''Groceries v2'' ''Milk, eggs, bread''
       [example_upload ''/tmp/a'' (Some ''fridge''), example_upload ''/tmp/a'' None]"

definition example_create :: form_data where
  "example_create =
     example_form None ''Groceries'' ''Milk, eggs'' [example_upload ''/tmp/a'' (Some ''fridge'')]"

section \<open>The migration keeps the rows and detaches them\<close>

lemma insert_select_simps [simp]:
  "fileId (insert_select r) = fileId r"
  "contentType (insert_select r) = contentType r"
  "altText (insert_select r) = altText r"
  "createdAt (insert_select r) = createdAt r"
  "updatedAt (insert_select r) = updatedAt r"
  "noteId (insert_select r) = None"
  by (simp_all add: insert_select_def)

text \<open>
  C10. The old table had the unique index that the script creates again, so its
  \<open>fileId\<close>s are distinct. On such a table the script runs through; the new table has one
  row for each old row, in the same order, with the same \<open>fileId\<close>, \<open>contentType\<close>,
  \<open>altText\<close>, \<open>createdAt\<close> and \<open>updatedAt\<close>; the \<open>fileId\<close>s are still distinct; and every
  row's \<open>noteId\<close> is NULL, so no migrated image belongs to a note.
\<close>

theorem migration_preserves_columns:
  assumes "distinct (map fileId old)"
  shows "\<exists>new. migration old = Inr new \<and> length new = length old \<and>
           map fileId new = map fileId old \<and>
           map contentType new = map contentType old \<and>
           map altText new = map altText old \<and>
           map createdAt new = map createdAt old \<and>
           map updatedAt new = map updatedAt old \<and>
           distinct (map fileId new) \<and>
           (\<forall>r \<in> set new. noteId r = None)"
  using assms by (simp add: migration_def comp_def)

theorem migration_preserves_columns_witness:
  "\<exists>new. migration (Image example_db) = Inr new \<and> length new = length (Image example_db) \<and>
     map fileId new = [''f0''] \<and> map contentType new = [''image/png''] \<and>
     map altText new = [Some ''fridge''] \<and> map createdAt new = [1] \<and>
     map updatedAt new = [2] \<and> distinct (map fileId new) \<and>
     (\<forall>r \<in> set new. noteId r = None)"
  using migration_preserves_columns [of "Image example_db"]
  by (simp add: example_db_def)

section \<open>The loader returns the caller's own notes only\<close>

lemma note_findFirst_Some:
  "note_findFirst db i uid = Some x \<longleftrightarrow> (\<exists>n. Note db i = Some n \<and> ownerId n = uid \<and> x = (i, n))"
  by (auto simp: note_findFirst_def split: option.splits)


text \<open>
  C2. The loader returns a note exactly when a note with the given id exists and its
  owner is the caller; then it returns that note's id, title and content and the
  \<open>(fileId, altText)\<close> of the images attached to it. In every other case, the id unknown
  or the note owned by another user, it throws one and the same response, \<open>Not found\<close>
  with status 404, which does not depend on the database.
\<close>

theorem loader_found_iff_owned:
  "((\<exists>r. loader userId nid db = Inr r) \<longleftrightarrow> (\<exists>n. Note db nid = Some n \<and> ownerId n = userId)) \<and>
   (\<forall>n. Note db nid = Some n \<and> ownerId n = userId \<longrightarrow>
      loader userId nid db =
        Inr \<lparr>l_id = nid, l_title = title n, l_content = content n,
             l_images = map (\<lambda>r. (fileId r, altText r))
                          (filter (\<lambda>r. noteId r = Some nid) (Image db))\<rparr>) \<and>
   ((\<forall>n. Note db nid = Some n \<longrightarrow> ownerId n \<noteq> userId) \<longrightarrow>
      loader userId nid db = Inl (Response ''Not found'' 404))"
  by (auto simp: loader_def note_findFirst_def split: option.splits)

theorem loader_found_iff_owned_witness:
  "loader ''u1'' ''n1'' example_db =
     Inr \<lparr>l_id = ''n1'', l_title = ''t'', l_content = ''c'', l_images = [(''f0'', Some ''fridge'')]\<rparr> \<and>
   loader ''u1'' ''n2'' example_db = Inl (Response ''Not found'' 404) \<and>
   loader ''u1'' ''n3'' example_db = Inl (Response ''Not found'' 404)"
  using loader_found_iff_owned [of "''u1''" "''n1''" example_db]
    loader_found_iff_owned [of "''u1''" "''n2''" example_db]
    loader_found_iff_owned [of "''u1''" "''n3''" example_db]
  by (simp add: example_db_def)

section \<open>Validation and the paths that write nothing\<close>

text \<open>
  C9. When the intent of the submission is not \<open>submit\<close>, the action answers with status
  \<open>idle\<close> and the submission itself, and leaves the database as it was: no note, file or
  image is written.
\<close>

theorem action_other_intent_idle:
  "s_intent (parse formData) \<noteq> ''submit'' \<Longrightarrow>
     action w userId formData db = (json idle (parse formData) 200, db)"
  by (simp add: action_def Let_def)

theorem action_other_intent_idle_witness:
  "s_intent (parse ((example_form None ''a'' ''b'' [])\<lparr>fd_intent := Some ''list''\<rparr>)) \<noteq> ''submit'' \<and>
   action example_env ''u1'' ((example_form None ''a'' ''b'' [])\<lparr>fd_intent := Some ''list''\<rparr>) example_db =
     (json idle (parse ((example_form None ''a'' ''b'' [])\<lparr>fd_intent := Some ''list''\<rparr>)) 200, example_db)"
proof -
  have h: "s_intent (parse ((example_form None ''a'' ''b'' [])\<lparr>fd_intent := Some ''list''\<rparr>)) \<noteq> ''submit''"
    by (simp add: parse_def example_form_def Let_def)
  show ?thesis
    using h action_other_intent_idle [OF h, of example_env "''u1''" example_db] by simp
qed

lemma s_error_parse: "s_error (parse formData) = ServerNoteEditorSchema (fd_payload formData)"
  by (simp add: parse_def Let_def)

lemma s_value_parse:
  "s_value (parse formData) =
     (if ServerNoteEditorSchema (fd_payload formData) = [] then Some (fd_payload formData) else None)"
  by (simp add: parse_def Let_def)

lemma schema_empty_iff:
  "ServerNoteEditorSchema p = [] \<longleftrightarrow>
     1 \<le> length (v_title p) \<and> length (v_title p) \<le> 100 \<and>
     1 \<le> length (v_content p) \<and> length (v_content p) \<le> 10000 \<and>
     v_images p \<noteq> []"
  by (auto simp: ServerNoteEditorSchema_def z_string_min_max_def z_array_def Suc_le_eq)

text \<open>
  C6. On a submitted payload whose title is empty or longer than 100, or whose content is
  empty or longer than 10000, the action answers with status \<open>error\<close> and HTTP 400 and
  writes nothing. The submission it returns names each offending field with its issue,
  so with both fields out of bounds both are in the one result.
\<close>

theorem action_validation_error:
  assumes "s_intent (parse formData) = ''submit''"
    and "p = fd_payload formData"
    and "length (v_title p) = 0 \<or> 100 < length (v_title p) \<or>
         length (v_content p) = 0 \<or> 10000 < length (v_content p)"
  shows "action w userId formData db = (json error (parse formData) 400, db) \<and>
         (length (v_title p) = 0 \<longrightarrow> (''title'', [too_small 1]) \<in> set (s_error (parse formData))) \<and>
         (100 < length (v_title p) \<longrightarrow> (''title'', [too_big 100]) \<in> set (s_error (parse formData))) \<and>
         (length (v_content p) = 0 \<longrightarrow> (''content'', [too_small 1]) \<in> set (s_error (parse formData))) \<and>
         (10000 < length (v_content p) \<longrightarrow>
            (''content'', [too_big 10000]) \<in> set (s_error (parse formData)))"
proof -
  have "ServerNoteEditorSchema p \<noteq> []"
    using assms(3) by (auto simp: schema_empty_iff)
  then have "s_value (parse formData) = None"
    by (simp add: s_value_parse assms(2))
  then have "action w userId formData db = (json error (parse formData) 400, db)"
    using assms(1) by (simp add: action_def Let_def)
  moreover have "length (v_title p) = 0 \<longrightarrow> (''title'', [too_small 1]) \<in> set (s_error (parse formData))"
    by (simp add: s_error_parse assms(2) ServerNoteEditorSchema_def z_string_min_max_def)
  moreover have "100 < length (v_title p) \<longrightarrow> (''title'', [too_big 100]) \<in> set (s_error (parse formData))"
    by (simp add: s_error_parse assms(2) ServerNoteEditorSchema_def z_string_min_max_def)
  moreover have "length (v_content p) = 0 \<longrightarrow> (''content'', [too_small 1]) \<in> set (s_error (parse formData))"
    by (simp add: s_error_parse assms(2) ServerNoteEditorSchema_def z_string_min_max_def)
  moreover have "10000 < length (v_content p) \<longrightarrow>
      (''content'', [too_big 10000]) \<in> set (s_error (parse formData))"
    by (simp add: s_error_parse assms(2) ServerNoteEditorSchema_def z_string_min_max_def)
  ultimately show ?thesis by blast
qed

theorem action_validation_error_witness:
  "action example_env ''u1'' (example_form None [] [] []) example_db =
     (json error (parse (example_form None [] [] [])) 400, example_db) \<and>
   (''title'', [too_small 1]) \<in> set (s_error (parse (example_form None [] [] []))) \<and>
   (''content'', [too_small 1]) \<in> set (s_error (parse (example_form None [] [] [])))"
proof -
  have h1: "s_intent (parse (example_form None [] [] [])) = ''submit''"
    by (simp add: parse_def example_form_def Let_def)
  have h2: "\<lparr>v_id = None, v_title = [], v_content = [], v_images = []\<rparr> =
            fd_payload (example_form None [] [] [])"
    by (simp add: example_form_def)
  show ?thesis
    using action_validation_error [OF h1 h2, of example_env "''u1''" example_db] by simp
qed

section \<open>The image loop\<close>

lemma file_ids_Nil [simp]: "file_ids w k [] = []"
  by (simp add: file_ids_def)

lemma file_ids_Cons [simp]: "file_ids w k (e # es) = cuid w k # file_ids w (Suc k) es"
proof -
  have "[k..<k + length (e # es)] = k # [Suc k..<Suc k + length es]"
    by (simp add: upt_conv_Cons del: upt_Suc)
  then show ?thesis unfolding file_ids_def by (simp del: upt_Suc)
qed

lemma length_file_ids [simp]: "length (file_ids w k es) = length es"
  by (simp add: file_ids_def)

lemma file_create_if:
  "file_create db i blob =
     (if File db i = None
      then Inr (i, db\<lparr>File := (File db)(i \<mapsto> blob), journal := journal db @ [FileCreate i]\<rparr>)
      else Inl (UniqueConstraint ''File_pkey''))"
  by (simp add: file_create_def split: option.splits)

lemma image_data_simps [simp]:
  "fileId (image_data w nid k fid e) = fid"
  "noteId (image_data w nid k fid e) = Some nid"
  "altText (image_data w nid k fid e) = f_altText e"
  "contentType (image_data w nid k fid e) = u_type (f_image e)"
  by (simp_all add: image_data_def)

lemma image_rows_Nil [simp]: "image_rows w nid k [] = []"
  by (simp add: image_rows_def)

lemma image_rows_Cons [simp]:
  "image_rows w nid k (e # es) = image_data w nid k (cuid w k) e # image_rows w nid (Suc k) es"
  by (simp add: image_rows_def)

lemma save_images_Cons_None:
  "save_images w nid k (e # es) db = (None, db') \<longleftrightarrow>
     (\<exists>blob. readFile w (filepath (f_image e)) = Some blob \<and>
        File db (cuid w k) = None \<and>
        cuid w k \<notin> fileId ` set (Image db) \<and>
        Note db nid \<noteq> None \<and>
        save_images w nid (Suc k) es
          (db\<lparr>File := (File db)(cuid w k \<mapsto> blob),
              Image := Image db @ [image_data w nid k (cuid w k) e],
              journal := journal db @ [FileCreate (cuid w k), ImageCreate (cuid w k)]\<rparr>) = (None, db'))"
proof (cases "readFile w (filepath (f_image e))")
  case None
  then show ?thesis by simp
next
  case (Some blob)
  show ?thesis
  proof (cases "File db (cuid w k) = None")
    case True
    then show ?thesis
      using Some by (cases "Note db nid") (auto simp: file_create_if image_create_def)
  next
    case False
    then show ?thesis using Some by (auto simp: file_create_if)
  qed
qed

lemma save_images_step:
  assumes "save_images w nid k (e # es) db = (None, db')"
  obtains blob db2 where
    "readFile w (filepath (f_image e)) = Some blob"
    "File db (cuid w k) = None"
    "cuid w k \<notin> fileId ` set (Image db)"
    "Note db nid \<noteq> None"
    "File db2 = (File db)(cuid w k \<mapsto> blob)"
    "Image db2 = Image db @ [image_data w nid k (cuid w k) e]"
    "journal db2 = journal db @ [FileCreate (cuid w k), ImageCreate (cuid w k)]"
    "Note db2 = Note db" "User db2 = User db"
    "save_images w nid (Suc k) es db2 = (None, db')"
proof -
  from assms obtain blob where
    h: "readFile w (filepath (f_image e)) = Some blob"
        "File db (cuid w k) = None"
        "cuid w k \<notin> fileId ` set (Image db)"
        "Note db nid \<noteq> None"
        "save_images w nid (Suc k) es
          (db\<lparr>File := (File db)(cuid w k \<mapsto> blob),
              Image := Image db @ [image_data w nid k (cuid w k) e],
              journal := journal db @ [FileCreate (cuid w k), ImageCreate (cuid w k)]\<rparr>) = (None, db')"
    unfolding save_images_Cons_None by blast
  show thesis
    by (rule that [OF h(1-4) _ _ _ _ _ h(5)]) simp_all
qed

lemma save_images_frame:
  "save_images w nid k es db = (r, db') \<Longrightarrow> Note db' = Note db \<and> User db' = User db"
proof (induction es arbitrary: k db)
  case Nil
  then show ?case by simp
next
  case (Cons e es)
  then show ?case
    by (auto simp: file_create_if image_create_def split: option.splits if_splits)
qed

lemma save_images_None_Image:
  "save_images w nid k es db = (None, db') \<Longrightarrow>
     Image db' = Image db @ image_rows w nid k es"
proof (induction es arbitrary: k db)
  case Nil
  then show ?case by simp
next
  case (Cons e es)
  from Cons.prems show ?case
  proof (rule save_images_step)
    fix blob db2
    assume "Image db2 = Image db @ [image_data w nid k (cuid w k) e]"
      and "save_images w nid (Suc k) es db2 = (None, db')"
    then show ?thesis using Cons.IH [of "Suc k" db2] by simp
  qed
qed

lemma save_images_None_journal:
  "save_images w nid k es db = (None, db') \<Longrightarrow>
     journal db' = journal db @
       concat (map (\<lambda>f. [FileCreate f, ImageCreate f]) (file_ids w k es))"
proof (induction es arbitrary: k db)
  case Nil
  then show ?case by simp
next
  case (Cons e es)
  from Cons.prems show ?case
  proof (rule save_images_step)
    fix blob db2
    assume "journal db2 = journal db @ [FileCreate (cuid w k), ImageCreate (cuid w k)]"
      and "save_images w nid (Suc k) es db2 = (None, db')"
    then show ?thesis using Cons.IH [of "Suc k" db2] by simp
  qed
qed

lemma save_images_None_fresh:
  "save_images w nid k es db = (None, db') \<Longrightarrow>
     distinct (file_ids w k es) \<and>
     set (file_ids w k es) \<inter> fileId ` set (Image db) = {} \<and>
     set (file_ids w k es) \<inter> dom (File db) = {}"
proof (induction es arbitrary: k db)
  case Nil
  then show ?case by simp
next
  case (Cons e es)
  from Cons.prems show ?case
  proof (rule save_images_step)
    fix blob db2
    assume f: "File db (cuid w k) = None" and i: "cuid w k \<notin> fileId ` set (Image db)"
      and F2: "File db2 = (File db)(cuid w k \<mapsto> blob)"
      and I2: "Image db2 = Image db @ [image_data w nid k (cuid w k) e]"
      and rest: "save_images w nid (Suc k) es db2 = (None, db')"
    have ih: "distinct (file_ids w (Suc k) es)"
      "set (file_ids w (Suc k) es) \<inter> fileId ` set (Image db2) = {}"
      "set (file_ids w (Suc k) es) \<inter> dom (File db2) = {}"
      using Cons.IH [OF rest] by simp_all
    have notin: "cuid w k \<notin> set (file_ids w (Suc k) es)"
      using ih(3) F2 by auto
    have "set (file_ids w (Suc k) es) \<inter> fileId ` set (Image db) = {}"
      using ih(2) I2 by auto
    moreover have "set (file_ids w (Suc k) es) \<inter> dom (File db) = {}"
      using ih(3) F2 by auto
    ultimately show ?thesis
      using ih(1) notin f i by (auto simp: domIff)
  qed
qed

lemma save_images_None_File:
  "save_images w nid k es db = (None, db') \<Longrightarrow>
     dom (File db') = dom (File db) \<union> set (file_ids w k es) \<and>
     (\<forall>i \<in> dom (File db). File db' i = File db i) \<and>
     map (File db') (file_ids w k es) = map (\<lambda>e. readFile w (filepath (f_image e))) es"
proof (induction es arbitrary: k db)
  case Nil
  then show ?case by simp
next
  case (Cons e es)
  from Cons.prems show ?case
  proof (rule save_images_step)
    fix blob db2
    assume rd: "readFile w (filepath (f_image e)) = Some blob"
      and f: "File db (cuid w k) = None"
      and F2: "File db2 = (File db)(cuid w k \<mapsto> blob)"
      and rest: "save_images w nid (Suc k) es db2 = (None, db')"
    have ih: "dom (File db') = dom (File db2) \<union> set (file_ids w (Suc k) es)"
      "\<forall>i \<in> dom (File db2). File db' i = File db2 i"
      "map (File db') (file_ids w (Suc k) es) = map (\<lambda>e. readFile w (filepath (f_image e))) es"
      using Cons.IH [OF rest] by simp_all
    have a: "dom (File db') = dom (File db) \<union> set (file_ids w k (e # es))"
      using ih(1) F2 by auto
    have b: "\<forall>i \<in> dom (File db). File db' i = File db i"
    proof
      fix i assume "i \<in> dom (File db)"
      then have "i \<noteq> cuid w k" "i \<in> dom (File db2)" using f F2 by auto
      then show "File db' i = File db i" using ih(2) F2 by simp
    qed
    have "cuid w k \<in> dom (File db2)" using F2 by simp
    then have c0: "File db' (cuid w k) = Some blob"
      using ih(2) F2 by simp
    have c: "map (File db') (file_ids w k (e # es)) = map (\<lambda>e. readFile w (filepath (f_image e))) (e # es)"
      using ih(3) c0 rd by simp
    show ?thesis using a b c by blast
  qed
qed

section \<open>The steps of the action\<close>

lemma note_row_overwrite:
  "(n::note_row)\<lparr>ownerId := a, title := b, content := c\<rparr> = \<lparr>ownerId = a, title = b, content = c\<rparr>"
  by (cases n) simp

lemma note_update_if:
  "note_update db i data =
     (case Note db i of None \<Rightarrow> Inl (RecordNotFound ''Note'')
      | Some n \<Rightarrow> (case User db (ownerId data) of
          None \<Rightarrow> Inl (ForeignKeyConstraint ''Note_ownerId_fkey'')
        | Some u \<Rightarrow> Inr (\<lparr>n_id = i, n_username = u\<rparr>,
              db\<lparr>Note := (Note db)(i \<mapsto> data), journal := journal db @ [NoteUpdate i]\<rparr>)))"
  by (cases data) (simp add: note_update_def note_row_overwrite split: option.splits)

lemma save_note_Inr:
  assumes "save_note w userId sub v db = Inr (note, db1)"
  shows "\<exists>u. User db userId = Some u \<and> n_username note = u \<and>
           (if truthy (v_id v)
            then v_id v = Some (n_id note) \<and> (\<exists>n. Note db (n_id note) = Some n \<and> ownerId n = userId)
            else n_id note = cuid w 0 \<and> Note db (cuid w 0) = None) \<and>
           db1 = db\<lparr>Note := (Note db)(n_id note \<mapsto>
                        \<lparr>ownerId = userId, title = v_title v, content = v_content v\<rparr>),
                    journal := journal db @
                      [if truthy (v_id v) then NoteUpdate (n_id note) else NoteCreate (n_id note)]\<rparr>"
proof (cases "truthy (v_id v)")
  case True
  then obtain i where i: "v_id v = Some i" by (cases "v_id v") auto
  show ?thesis
    using assms True i
    by (auto simp: save_note_def Let_def note_update_if note_findFirst_def
          split: option.splits if_splits)
next
  case False
  show ?thesis
    using assms False
    by (auto simp: save_note_def Let_def note_create_def split: option.splits)
qed

lemma action_redirect:
  assumes "action w userId formData db = (redirectWithToast url toast, db')"
  obtains nt db1 where
    "s_intent (parse formData) = ''submit''"
    "ServerNoteEditorSchema (fd_payload formData) = []"
    "save_note w userId (parse formData) (fd_payload formData) db = Inr (nt, db1)"
    "save_images w (n_id nt) 1 (v_images (fd_payload formData)) db1 = (None, db')"
    "url = ''/users/'' @ n_username nt @ ''/notes/'' @ n_id nt"
    "toast = (if truthy (v_id (fd_payload formData)) then ''Note updated'' else ''Note created'')"
proof -
  have i: "s_intent (parse formData) = ''submit''"
    using assms by (auto simp: action_def Let_def split: if_splits)
  have v: "ServerNoteEditorSchema (fd_payload formData) = []"
    using assms i by (auto simp: action_def Let_def s_value_parse split: if_splits)
  then have sv: "s_value (parse formData) = Some (fd_payload formData)"
    by (simp add: s_value_parse)
  obtain nt db1 where sn: "save_note w userId (parse formData) (fd_payload formData) db = Inr (nt, db1)"
    using assms i sv by (cases "save_note w userId (parse formData) (fd_payload formData) db")
      (auto simp: action_def Let_def save_note_def note_update_if note_create_def split: option.splits if_splits)
  obtain r db2 where si: "save_images w (n_id nt) 1 (v_images (fd_payload formData)) db1 = (r, db2)"
    by (cases "save_images w (n_id nt) 1 (v_images (fd_payload formData)) db1")
  have "r = None \<and> db2 = db' \<and> url = ''/users/'' @ n_username nt @ ''/notes/'' @ n_id nt \<and>
    toast = (if truthy (v_id (fd_payload formData)) then ''Note updated'' else ''Note created'')"
    using assms i sv sn si by (cases r) (simp_all add: action_def Let_def)
  then show thesis using that [OF i v sn] si by blast
qed


lemma action_submit_valid:
  assumes "s_intent (parse formData) = ''submit''"
    and "ServerNoteEditorSchema (fd_payload formData) = []"
  shows "action w userId formData db =
     (case save_note w userId (parse formData) (fd_payload formData) db of
        Inl resp \<Rightarrow> (resp, db)
      | Inr (nt, db1) \<Rightarrow>
          (case save_images w (n_id nt) 1 (v_images (fd_payload formData)) db1 of
             (Some err, db2) \<Rightarrow> (Thrown err, db2)
           | (None, db2) \<Rightarrow>
               (redirectWithToast (''/users/'' @ n_username nt @ ''/notes/'' @ n_id nt)
                  (if truthy (v_id (fd_payload formData)) then ''Note updated'' else ''Note created''),
                db2)))"
  using assms by (simp add: action_def Let_def s_value_parse)

lemma image_rows_columns:
  "length (image_rows w nid k es) = length es \<and>
   map fileId (image_rows w nid k es) = file_ids w k es \<and>
   map altText (image_rows w nid k es) = map f_altText es \<and>
   map contentType (image_rows w nid k es) = map (\<lambda>e. u_type (f_image e)) es \<and>
   (\<forall>r \<in> set (image_rows w nid k es). noteId r = Some nid)"
  by (induction es arbitrary: k) simp_all

lemma saved_note_persists:
  assumes "save_note w userId sub v db = Inr (nt, db1)"
    and "save_images w (n_id nt) k es db1 = (r, db')"
  shows "Note db' = (Note db)(n_id nt \<mapsto> \<lparr>ownerId = userId, title = v_title v, content = v_content v\<rparr>)"
    and "User db' = User db"
proof -
  from save_note_Inr [OF assms(1)]
  have "db1 = db\<lparr>Note := (Note db)(n_id nt \<mapsto>
                        \<lparr>ownerId = userId, title = v_title v, content = v_content v\<rparr>),
                    journal := journal db @
                      [if truthy (v_id v) then NoteUpdate (n_id nt) else NoteCreate (n_id nt)]\<rparr>"
    by blast
  then have "Note db1 = (Note db)(n_id nt \<mapsto> \<lparr>ownerId = userId, title = v_title v, content = v_content v\<rparr>)"
    "User db1 = User db"
    by simp_all
  then show "Note db' = (Note db)(n_id nt \<mapsto> \<lparr>ownerId = userId, title = v_title v, content = v_content v\<rparr>)"
    and "User db' = User db"
    using save_images_frame [OF assms(2)] by simp_all
qed

lemma example_update_payload:
  "fd_payload example_update =
     \<lparr>v_id = Some ''n1'', v_title = ''Groceries v2'', v_content = ''Milk, eggs, bread'',
      v_images = [example_upload ''/tmp/a'' (Some ''fridge''), example_upload ''/tmp/a'' None]\<rparr>"
  by (simp add: example_update_def example_form_def)


lemma example_update_runs:
  "action example_env ''u1'' example_update example_db =
     (redirectWithToast ''/users/kody/notes/n1'' ''Note updated'',
      snd (action example_env ''u1'' example_update example_db))"
proof -
  have "fst (action example_env ''u1'' example_update example_db) =
      redirectWithToast ''/users/kody/notes/n1'' ''Note updated''"
    by code_simp
  then show ?thesis by (simp add: prod_eq_iff)
qed

lemma example_create_runs:
  "action example_env ''u1'' example_create example_db =
     (redirectWithToast ''/users/kody/notes/n9'' ''Note created'',
      snd (action example_env ''u1'' example_create example_db))"
proof -
  have "fst (action example_env ''u1'' example_create example_db) =
      redirectWithToast ''/users/kody/notes/n9'' ''Note created''"
    by code_simp
  then show ?thesis by (simp add: prod_eq_iff)
qed


lemma save_images_single_Some:
  assumes "save_images w nid k [e] db = (Some err, db')"
  shows "Image db' = Image db \<and> Note db' = Note db \<and> (\<forall>i \<in> dom (File db). File db' i = File db i)"
proof (cases "readFile w (filepath (f_image e))")
  case None
  then show ?thesis using assms by simp
next
  case (Some blob)
  show ?thesis
  proof (cases "File db (cuid w k) = None")
    case True
    then show ?thesis
      using assms Some
      by (auto simp: file_create_if image_create_def domIff split: if_splits option.splits)
  next
    case False
    then show ?thesis using assms Some by (auto simp: file_create_if)
  qed
qed

lemma save_images_head_Some:
  assumes "save_images w nid k [e] db = (Some err, db')"
  shows "save_images w nid k (e # es) db = (Some err, db')"
proof (cases "readFile w (filepath (f_image e))")
  case None
  then show ?thesis using assms by simp
next
  case (Some blob)
  show ?thesis
  proof (cases "file_create db (cuid w k) blob")
    case (Inl x)
    then show ?thesis using assms Some by simp
  next
    case (Inr y)
    obtain fid db1 where y: "y = (fid, db1)" by (cases y)
    show ?thesis
      using assms Some Inr y
      by (cases "image_create db1 (image_data w nid k fid e)") simp_all
  qed
qed

lemma save_images_append_None:
  assumes "save_images w nid k xs db = (None, db1)"
  shows "save_images w nid k (xs @ ys) db = save_images w nid (k + length xs) ys db1"
  using assms
proof (induction xs arbitrary: k db)
  case Nil
  then show ?case by simp
next
  case (Cons e xs)
  from Cons.prems show ?case
  proof (rule save_images_step)
    fix blob db2
    assume rd: "readFile w (filepath (f_image e)) = Some blob"
      and f: "File db (cuid w k) = None"
      and rest: "save_images w nid (Suc k) xs db2 = (None, db1)"
    have step: "save_images w nid k (e # zs) db = save_images w nid (Suc k) zs db2'"
      if "save_images w nid k [e] db = (None, db2')" for zs db2'
      using that rd f
      by (auto simp: file_create_if split: sum.splits)
    obtain r db2' where one: "save_images w nid k [e] db = (r, db2')"
      by (cases "save_images w nid k [e] db")
    have "save_images w nid k (e # xs) db = (None, db1)" by (rule Cons.prems)
    then have r: "r = None"
      using one save_images_head_Some [of w nid k e db _ db2' xs] by (cases r) auto
    have "save_images w nid (Suc k) xs db2' = (None, db1)"
      using step [of db2' xs] one r Cons.prems by simp
    then have "save_images w nid (Suc k) (xs @ ys) db2' = save_images w nid (Suc k + length xs) ys db1"
      by (rule Cons.IH)
    then show ?thesis
      using step [of db2' "xs @ ys"] one r by simp
  qed
qed

text \<open>
  Whenever the loop raises, some entry \<open>j\<close> is the one that raised: the entries before
  it went through, and the database it left is the final one.
\<close>

lemma save_images_Some:
  "save_images w nid k es db = (Some err, db') \<Longrightarrow>
     \<exists>j dbj. j < length es \<and> save_images w nid k (take j es) db = (None, dbj) \<and>
        save_images w nid (k + j) [es ! j] dbj = (Some err, db')"
proof (induction es arbitrary: k db)
  case Nil
  then show ?case by simp
next
  case (Cons e es)
  obtain r db1 where one: "save_images w nid k [e] db = (r, db1)"
    by (cases "save_images w nid k [e] db")
  show ?case
  proof (cases r)
    case (Some err1)
    have "save_images w nid k [e] db = (Some err1, db1)"
      unfolding one Some ..
    then have full: "save_images w nid k (e # es) db = (Some err1, db1)"
      by (rule save_images_head_Some)
    have eq: "err1 = err" "db1 = db'"
      using full Cons.prems by (simp_all del: save_images.simps)
    have "save_images w nid (k + 0) [(e # es) ! 0] db = (Some err, db')"
      using one Some eq by (simp del: save_images.simps)
    moreover have "save_images w nid k (take 0 (e # es)) db = (None, db)"
      by simp
    ultimately show ?thesis
      by (intro exI [of _ 0] exI [of _ db]) (simp del: save_images.simps)
  next
    case None
    have one': "save_images w nid k [e] db = (None, db1)"
      unfolding one None ..
    have step: "save_images w nid k (e # zs) db = save_images w nid (Suc k) zs db1" for zs
      using save_images_append_None [OF one', of zs] by (simp del: save_images.simps)
    have "save_images w nid (Suc k) es db1 = (Some err, db')"
      unfolding step [symmetric] by (rule Cons.prems)
    from Cons.IH [OF this] obtain j dbj where
      j: "j < length es" "save_images w nid (Suc k) (take j es) db1 = (None, dbj)"
        "save_images w nid (Suc k + j) [es ! j] dbj = (Some err, db')"
      by blast
    have "save_images w nid k (e # take j es) db = (None, dbj)"
      unfolding step by (rule j(2))
    then have a: "save_images w nid k (take (Suc j) (e # es)) db = (None, dbj)"
      by (simp del: save_images.simps)
    have b: "save_images w nid (k + Suc j) [(e # es) ! Suc j] dbj = (Some err, db')"
      using j(3) by (simp del: save_images.simps)
    show ?thesis
      using j(1) a b by (intro exI [of _ "Suc j"] exI [of _ dbj]) (simp del: save_images.simps)
  qed
qed

lemma example_form_simps [simp]:
  "fd_intent (example_form i t c imgs) = None"
  "fd_payload (example_form i t c imgs) = \<lparr>v_id = i, v_title = t, v_content = c, v_images = imgs\<rparr>"
  by (simp_all add: example_form_def)

lemma parse_submit: "fd_intent formData = None \<Longrightarrow> s_intent (parse formData) = ''submit''"
  by (simp add: parse_def Let_def)

text \<open>
  The loop runs through when every entry's file can be read and the ids drawn are new:
  distinct, and neither keys of File nor \<open>fileId\<close>s of Image.
\<close>

lemma save_images_returns:
  assumes "\<forall>e \<in> set es. readFile w (filepath (f_image e)) \<noteq> None"
    and "distinct (file_ids w k es)"
    and "set (file_ids w k es) \<inter> dom (File db) = {}"
    and "set (file_ids w k es) \<inter> fileId ` set (Image db) = {}"
    and "Note db nid \<noteq> None"
  shows "\<exists>db'. save_images w nid k es db = (None, db')"
  using assms
proof (induction es arbitrary: k db)
  case Nil
  then show ?case by simp
next
  case (Cons e es)
  from Cons.prems(1) obtain blob where rd: "readFile w (filepath (f_image e)) = Some blob"
    by auto
  let ?db2 = "db\<lparr>File := (File db)(cuid w k \<mapsto> blob),
              Image := Image db @ [image_data w nid k (cuid w k) e],
              journal := journal db @ [FileCreate (cuid w k), ImageCreate (cuid w k)]\<rparr>"
  have f: "File db (cuid w k) = None" using Cons.prems(3) by (auto simp: domIff)
  have i: "cuid w k \<notin> fileId ` set (Image db)" using Cons.prems(4) by auto
  have nk: "cuid w k \<notin> set (file_ids w (Suc k) es)" using Cons.prems(2) by simp
  have "\<exists>db'. save_images w nid (Suc k) es ?db2 = (None, db')"
  proof (rule Cons.IH)
    show "\<forall>e \<in> set es. readFile w (filepath (f_image e)) \<noteq> None" using Cons.prems(1) by simp
    show "distinct (file_ids w (Suc k) es)" using Cons.prems(2) by simp
    show "set (file_ids w (Suc k) es) \<inter> dom (File ?db2) = {}"
      using Cons.prems(3) nk by auto
    show "set (file_ids w (Suc k) es) \<inter> fileId ` set (Image ?db2) = {}"
      using Cons.prems(4) nk by auto
    show "Note ?db2 nid \<noteq> None" using Cons.prems(5) by simp
  qed
  then obtain db' where "save_images w nid (Suc k) es ?db2 = (None, db')" ..
  then have "save_images w nid k (e # es) db = (None, db')"
    unfolding save_images_Cons_None using rd f i Cons.prems(5) by auto
  then show ?case ..
qed

text \<open>
  So a submitted, valid payload of a user of the database ends with the redirect when
  its id, if it has one, is that of a note of the caller, the id drawn for a new note is
  unused, and the loop's conditions hold.
\<close>

lemma action_returns_redirect:
  assumes "s_intent (parse formData) = ''submit''"
    and "p = fd_payload formData"
    and "ServerNoteEditorSchema p = []"
    and "User db userId = Some u"
    and "if truthy (v_id p)
         then \<exists>n. Note db (the (v_id p)) = Some n \<and> ownerId n = userId
         else Note db (cuid w 0) = None"
    and "\<forall>e \<in> set (v_images p). readFile w (filepath (f_image e)) \<noteq> None"
    and "distinct (file_ids w 1 (v_images p))"
    and "set (file_ids w 1 (v_images p)) \<inter> dom (File db) = {}"
    and "set (file_ids w 1 (v_images p)) \<inter> fileId ` set (Image db) = {}"
  shows "\<exists>url toast db'. action w userId formData db = (redirectWithToast url toast, db')"
proof -
  let ?data = "\<lparr>ownerId = userId, title = v_title p, content = v_content p\<rparr>"
  obtain nt db1 where sn: "save_note w userId (parse formData) p db = Inr (nt, db1)"
  proof (cases "truthy (v_id p)")
    case True
    then obtain i where i: "v_id p = Some i" by (cases "v_id p") auto
    with assms(5) True obtain n where n: "Note db i = Some n" "ownerId n = userId" by auto
    then have "note_findFirst db i userId = Some (i, n)" by (simp add: note_findFirst_Some)
    then have "\<exists>nt db1. save_note w userId (parse formData) p db = Inr (nt, db1)"
      using True i n assms(4) by (simp add: save_note_def Let_def note_update_if)
    then show ?thesis using that by blast
  next
    case False
    then have "\<exists>nt db1. save_note w userId (parse formData) p db = Inr (nt, db1)"
      using assms(4,5) by (simp add: save_note_def Let_def note_create_def)
    then show ?thesis using that by blast
  qed
  from save_note_Inr [OF sn]
  have db1: "File db1 = File db" "Image db1 = Image db" "Note db1 (n_id nt) \<noteq> None"
    by auto
  have "\<exists>db'. save_images w (n_id nt) 1 (v_images p) db1 = (None, db')"
    using assms(6-9) db1 by (intro save_images_returns) simp_all
  then obtain db' where si: "save_images w (n_id nt) 1 (v_images p) db1 = (None, db')" ..
  show ?thesis
    using action_submit_valid [of formData w userId db] assms(1-3) sn si by simp
qed

section \<open>What a successful save writes and returns\<close>

text \<open>
  C3. When the action ends with the redirect, the request has written one File row and
  one Image row for each of the \<open>K\<close> image entries of the payload and no other: the
  files are stored under \<open>K\<close> distinct ids that were not in File before, each holding
  the bytes read from its entry's path, and the rows already there are unchanged; Image
  has \<open>K\<close> new rows, in the order of the entries, whose \<open>fileId\<close>s are those ids (so they
  are distinct, and none was in Image before), whose \<open>noteId\<close> is the id of the saved note,
  the one in the redirect, and whose \<open>altText\<close> is the entry's, NULL when the entry has
  none. The journal shows the write of the note and then, entry by entry, the file's
  insert followed by its image's insert.
\<close>

theorem action_success_inserts_files_and_images:
  assumes "action w userId formData db = (redirectWithToast url toast, db')"
    and "es = v_images (fd_payload formData)"
  shows "\<exists>nid u new.
      url = ''/users/'' @ u @ ''/notes/'' @ nid \<and>
      Note db' nid = Some \<lparr>ownerId = userId, title = v_title (fd_payload formData),
                           content = v_content (fd_payload formData)\<rparr> \<and>
      dom (File db') = dom (File db) \<union> set (file_ids w 1 es) \<and>
      set (file_ids w 1 es) \<inter> dom (File db) = {} \<and>
      distinct (file_ids w 1 es) \<and> length (file_ids w 1 es) = length es \<and>
      card (dom (File db') - dom (File db)) = length es \<and>
      (\<forall>i \<in> dom (File db). File db' i = File db i) \<and>
      map (File db') (file_ids w 1 es) = map (\<lambda>e. readFile w (filepath (f_image e))) es \<and>
      Image db' = Image db @ new \<and> length new = length es \<and>
      map fileId new = file_ids w 1 es \<and>
      set (file_ids w 1 es) \<inter> fileId ` set (Image db) = {} \<and>
      (\<forall>r \<in> set new. noteId r = Some nid) \<and>
      map altText new = map f_altText es \<and>
      map contentType new = map (\<lambda>e. u_type (f_image e)) es \<and>
      (\<exists>nw. journal db' = journal db @
          nw # concat (map (\<lambda>f. [FileCreate f, ImageCreate f]) (file_ids w 1 es)))"
proof -
  from assms(1) obtain nt db1 where
    sn: "save_note w userId (parse formData) (fd_payload formData) db = Inr (nt, db1)" and
    si: "save_images w (n_id nt) 1 es db1 = (None, db')" and
    u: "url = ''/users/'' @ n_username nt @ ''/notes/'' @ n_id nt"
    unfolding assms(2) by (rule action_redirect)
  let ?ids = "file_ids w 1 es"
  let ?new = "image_rows w (n_id nt) 1 es"
  from save_note_Inr [OF sn]
  have db1: "File db1 = File db" "Image db1 = Image db"
    and j1: "\<exists>nw. journal db1 = journal db @ [nw]"
    by auto
  have n: "Note db' (n_id nt) = Some \<lparr>ownerId = userId, title = v_title (fd_payload formData),
                           content = v_content (fd_payload formData)\<rparr>"
    using saved_note_persists(1) [OF sn si] by simp
  have fr: "distinct ?ids" "set ?ids \<inter> fileId ` set (Image db) = {}" "set ?ids \<inter> dom (File db) = {}"
    using save_images_None_fresh [OF si] db1 by simp_all
  have fl: "dom (File db') = dom (File db) \<union> set ?ids"
    "\<forall>i \<in> dom (File db). File db' i = File db i"
    "map (File db') ?ids = map (\<lambda>e. readFile w (filepath (f_image e))) es"
    using save_images_None_File [OF si] db1 by simp_all
  have "dom (File db') - dom (File db) = set ?ids"
    using fl(1) fr(3) by auto
  then have cd: "card (dom (File db') - dom (File db)) = length es"
    using fr(1) by (simp add: distinct_card)
  have im: "Image db' = Image db @ ?new"
    using save_images_None_Image [OF si] db1 by simp
  have jn: "\<exists>nw. journal db' = journal db @
          nw # concat (map (\<lambda>f. [FileCreate f, ImageCreate f]) ?ids)"
    using save_images_None_journal [OF si] j1 by auto
  have m2: "length ?new = length es" "map fileId ?new = ?ids" "map altText ?new = map f_altText es"
    "map contentType ?new = map (\<lambda>e. u_type (f_image e)) es"
    "\<forall>r \<in> set ?new. noteId r = Some (n_id nt)"
    using image_rows_columns [of w "n_id nt" 1 es] by simp_all
  show ?thesis
    using u n fl fr cd im jn m2 length_file_ids [of w 1 es] by blast
qed

theorem action_success_inserts_files_and_images_witness:
  "action example_env ''u1'' example_update example_db =
     (redirectWithToast ''/users/kody/notes/n1'' ''Note updated'',
      snd (action example_env ''u1'' example_update example_db)) \<and>
   card (dom (File (snd (action example_env ''u1'' example_update example_db))) -
         dom (File example_db)) = 2 \<and>
   map fileId (drop 1 (Image (snd (action example_env ''u1'' example_update example_db)))) =
     [''f1'', ''f2''] \<and>
   map altText (drop 1 (Image (snd (action example_env ''u1'' example_update example_db)))) =
     [Some ''fridge'', None]"
proof -
  let ?db' = "snd (action example_env ''u1'' example_update example_db)"
  let ?es = "v_images (fd_payload example_update)"
  from action_success_inserts_files_and_images [OF example_update_runs refl]
  obtain new where
    c: "card (dom (File ?db') - dom (File example_db)) = length ?es" and
    i: "Image ?db' = Image example_db @ new" and
    f: "map fileId new = file_ids example_env 1 ?es" and
    a: "map altText new = map f_altText ?es"
    by (elim exE conjE) (rule that, assumption+)
  have l: "length (Image example_db) = 1" by (simp add: example_db_def)
  have d: "drop 1 (Image ?db') = new" using i l by simp
  have n: "length ?es = 2" by (simp add: example_update_payload)
  have ids: "file_ids example_env 1 ?es = [''f1'', ''f2'']"
    by (simp add: example_update_payload example_env_def)
  have alts: "map f_altText ?es = [Some ''fridge'', None]"
    by (simp add: example_update_payload example_upload_def)
  show ?thesis
    using example_update_runs c f a d n ids alts by simp
qed




text \<open>
  C8 as stated fails on a payload whose id is the empty string, which is what the
  editor's hidden \<open>id\<close> field submits for a new note: the payload carries an id, the
  test \<open>id ? 'Note updated' : 'Note created'\<close> finds it falsy, and the message is
  \<open>Note created\<close>.
\<close>

theorem toast_for_empty_id_counterexample:
  "v_id (fd_payload (example_form (Some []) ''Groceries'' ''Milk, eggs''
                       [example_upload ''/tmp/a'' None])) = Some [] \<and>
   ServerNoteEditorSchema
     (fd_payload (example_form (Some []) ''Groceries'' ''Milk, eggs''
                    [example_upload ''/tmp/a'' None])) = [] \<and>
   fst (action example_env ''u1''
          (example_form (Some []) ''Groceries'' ''Milk, eggs'' [example_upload ''/tmp/a'' None])
          example_db) =
     redirectWithToast ''/users/kody/notes/n9'' ''Note created''"
proof -
  have a: "ServerNoteEditorSchema
     (fd_payload (example_form (Some []) ''Groceries'' ''Milk, eggs''
                    [example_upload ''/tmp/a'' None])) = []"
    by (simp add: ServerNoteEditorSchema_def z_string_min_max_def z_array_def)
  have b: "fst (action example_env ''u1''
          (example_form (Some []) ''Groceries'' ''Milk, eggs'' [example_upload ''/tmp/a'' None])
          example_db) =
     redirectWithToast ''/users/kody/notes/n9'' ''Note created''"
    by code_simp
  show ?thesis using a b by simp
qed

text \<open>
  C8, as amended. When the action ends with the redirect, the target is
  \<open>/users/<username>/notes/<id>\<close>, where the username is the caller's, the owner of the
  saved note, and the id is the key of the saved note. The message is \<open>Note updated\<close>
  when the payload's id is a non-empty string, and then the note's id is that string; it
  is \<open>Note created\<close> when the id is absent or empty, and then the note's id is the
  generated one.
\<close>

theorem action_redirect_target:
  assumes "action w userId formData db = (redirectWithToast url toast, db')"
    and "p = fd_payload formData"
  shows "\<exists>nid u. url = ''/users/'' @ u @ ''/notes/'' @ nid \<and> User db userId = Some u \<and>
     Note db' nid = Some \<lparr>ownerId = userId, title = v_title p, content = v_content p\<rparr> \<and>
     (truthy (v_id p) \<longrightarrow> v_id p = Some nid \<and> toast = ''Note updated'') \<and>
     (\<not> truthy (v_id p) \<longrightarrow> nid = cuid w 0 \<and> toast = ''Note created'')"
proof -
  from assms(1) obtain nt db1 where
    sn: "save_note w userId (parse formData) p db = Inr (nt, db1)" and
    si: "save_images w (n_id nt) 1 (v_images p) db1 = (None, db')" and
    u: "url = ''/users/'' @ n_username nt @ ''/notes/'' @ n_id nt" and
    t: "toast = (if truthy (v_id p) then ''Note updated'' else ''Note created'')"
    unfolding assms(2) by (rule action_redirect)
  from save_note_Inr [OF sn]
  have un: "User db userId = Some (n_username nt)"
    and idc: "if truthy (v_id p) then v_id p = Some (n_id nt) else n_id nt = cuid w 0"
    by auto
  have n: "Note db' (n_id nt) = Some \<lparr>ownerId = userId, title = v_title p, content = v_content p\<rparr>"
    using saved_note_persists(1) [OF sn si] by simp
  show ?thesis
    using u t un idc n by (auto split: if_splits)
qed

theorem action_redirect_target_witness:
  "action example_env ''u1'' example_update example_db =
     (redirectWithToast ''/users/kody/notes/n1'' ''Note updated'',
      snd (action example_env ''u1'' example_update example_db)) \<and>
   User example_db ''u1'' = Some ''kody'' \<and>
   Note (snd (action example_env ''u1'' example_update example_db)) ''n1'' =
     Some \<lparr>ownerId = ''u1'', title = ''Groceries v2'', content = ''Milk, eggs, bread''\<rparr>"
proof -
  have t: "truthy (v_id (fd_payload example_update))"
    by (simp add: example_update_payload)
  from action_redirect_target [OF example_update_runs refl]
  obtain nid u where
    "User example_db ''u1'' = Some u"
    "Note (snd (action example_env ''u1'' example_update example_db)) nid =
       Some \<lparr>ownerId = ''u1'', title = v_title (fd_payload example_update),
             content = v_content (fd_payload example_update)\<rparr>"
    "truthy (v_id (fd_payload example_update)) \<longrightarrow>
       v_id (fd_payload example_update) = Some nid \<and> ''Note updated'' = ''Note updated''"
    by (elim exE conjE) (rule that, assumption+)
  moreover have "User example_db ''u1'' = Some ''kody''" by (simp add: example_db_def)
  ultimately show ?thesis
    using example_update_runs t by (simp add: example_update_payload)
qed

section \<open>Notes of other users\<close>




section \<open>Updating a note in place\<close>



section \<open>A failing image insert\<close>

text \<open>
  C7. Let the note be saved (updated or created), let the first \<open>j\<close> image entries go
  through, and let the insert for entry \<open>j\<close> raise. Then the action ends with that
  error and nothing is rolled back. The database it leaves is the one of that moment:
  the note has its new title and content; Image is the old table followed by the rows
  of the first \<open>j\<close> entries, each with its file id and the note's id; File holds the
  blobs of those \<open>j\<close> entries under their ids, and every row it had before.
\<close>

theorem image_failure_keeps_note_and_earlier_rows:
  assumes "s_intent (parse formData) = ''submit''"
    and "p = fd_payload formData"
    and "ServerNoteEditorSchema p = []"
    and "save_note w userId (parse formData) p db = Inr (nt, db1)"
    and "j < length (v_images p)"
    and "save_images w (n_id nt) 1 (take j (v_images p)) db1 = (None, dbj)"
    and "save_images w (n_id nt) (1 + j) [v_images p ! j] dbj = (Some err, db2)"
  shows "action w userId formData db = (Thrown err, db2) \<and>
         Note db2 (n_id nt) = Some \<lparr>ownerId = userId, title = v_title p, content = v_content p\<rparr> \<and>
         Image db2 = Image db @ image_rows w (n_id nt) 1 (take j (v_images p)) \<and>
         length (image_rows w (n_id nt) 1 (take j (v_images p))) = j \<and>
         map fileId (image_rows w (n_id nt) 1 (take j (v_images p))) =
           file_ids w 1 (take j (v_images p)) \<and>
         map (File db2) (file_ids w 1 (take j (v_images p))) =
           map (\<lambda>e. readFile w (filepath (f_image e))) (take j (v_images p)) \<and>
         (\<forall>i \<in> dom (File db). File db2 i = File db i)"
proof -
  let ?es = "v_images p"
  let ?pre = "take j ?es"
  have split: "?es = ?pre @ (?es ! j # drop (Suc j) ?es)"
    using assms(5) by (simp add: id_take_nth_drop [symmetric])
  have lp: "length ?pre = j" using assms(5) by simp
  have "save_images w (n_id nt) 1 (?pre @ (?es ! j # drop (Suc j) ?es)) db1 =
      save_images w (n_id nt) (1 + length ?pre) (?es ! j # drop (Suc j) ?es) dbj"
    by (rule save_images_append_None [OF assms(6)])
  also have "\<dots> = (Some err, db2)"
    unfolding lp by (rule save_images_head_Some [OF assms(7)])
  finally have si: "save_images w (n_id nt) 1 ?es db1 = (Some err, db2)"
    using split by simp
  have a: "action w userId formData db = (Thrown err, db2)"
    using action_submit_valid [of formData w userId db] assms(1-4) si by simp
  have n: "Note db2 (n_id nt) = Some \<lparr>ownerId = userId, title = v_title p, content = v_content p\<rparr>"
    using saved_note_persists(1) [OF assms(4) si] by simp
  from save_note_Inr [OF assms(4)] have db1: "Image db1 = Image db" "File db1 = File db"
    by auto
  from save_images_single_Some [OF assms(7)]
  have keep: "Image db2 = Image dbj" "\<forall>i \<in> dom (File dbj). File db2 i = File dbj i"
    by simp_all
  have im: "Image db2 = Image db @ image_rows w (n_id nt) 1 ?pre"
    using save_images_None_Image [OF assms(6)] keep(1) db1 by simp
  have f: "dom (File dbj) = dom (File db) \<union> set (file_ids w 1 ?pre)"
    "\<forall>i \<in> dom (File db). File dbj i = File db i"
    "map (File dbj) (file_ids w 1 ?pre) = map (\<lambda>e. readFile w (filepath (f_image e))) ?pre"
    using save_images_None_File [OF assms(6)] db1 by simp_all
  have "map (File db2) (file_ids w 1 ?pre) = map (File dbj) (file_ids w 1 ?pre)"
    using keep(2) f(1) by (intro map_cong) auto
  also have "\<dots> = map (\<lambda>e. readFile w (filepath (f_image e))) ?pre"
    by (rule f(3))
  finally have fm: "map (File db2) (file_ids w 1 ?pre) =
      map (\<lambda>e. readFile w (filepath (f_image e))) ?pre" .
  have old: "\<forall>i \<in> dom (File db). File db2 i = File db i"
  proof
    fix i assume i: "i \<in> dom (File db)"
    then have "i \<in> dom (File dbj)" using f(1) by simp
    then have "File db2 i = File dbj i" using keep(2) by simp
    then show "File db2 i = File db i" using f(2) i by simp
  qed
  have cols: "length (image_rows w (n_id nt) 1 ?pre) = j"
    "map fileId (image_rows w (n_id nt) 1 ?pre) = file_ids w 1 ?pre"
    using image_rows_columns [of w "n_id nt" 1 ?pre] lp by simp_all
  show ?thesis using a n im cols fm old by blast
qed

theorem image_failure_keeps_note_and_earlier_rows_witness:
  "fst (action example_env ''u1''
          (example_form (Some ''n1'') ''x'' ''y''
             [example_upload ''/tmp/a'' None, example_upload ''/tmp/b'' None]) example_db) =
     Thrown (ENOENT ''/tmp/b'') \<and>
   Note (snd (action example_env ''u1''
               (example_form (Some ''n1'') ''x'' ''y''
                  [example_upload ''/tmp/a'' None, example_upload ''/tmp/b'' None]) example_db)) ''n1'' =
     Some \<lparr>ownerId = ''u1'', title = ''x'', content = ''y''\<rparr> \<and>
   Image (snd (action example_env ''u1''
               (example_form (Some ''n1'') ''x'' ''y''
                  [example_upload ''/tmp/a'' None, example_upload ''/tmp/b'' None]) example_db)) =
     Image example_db @
       [\<lparr>fileId = ''f1'', contentType = ''image/jpeg'', altText = None,
         createdAt = 8, updatedAt = 8, noteId = Some ''n1''\<rparr>] \<and>
   File (snd (action example_env ''u1''
               (example_form (Some ''n1'') ''x'' ''y''
                  [example_upload ''/tmp/a'' None, example_upload ''/tmp/b'' None]) example_db)) ''f1'' =
     Some [1, 2]"
proof -
  let ?F = "example_form (Some ''n1'') ''x'' ''y''
        [example_upload ''/tmp/a'' None, example_upload ''/tmp/b'' None]"
  let ?p = "fd_payload ?F"
  let ?sn = "save_note example_env ''u1'' (parse ?F) ?p example_db"
  let ?nt = "fst (projr ?sn)"
  let ?db1 = "snd (projr ?sn)"
  let ?pre = "save_images example_env (n_id ?nt) 1 (take 1 (v_images ?p)) ?db1"
  let ?dbj = "snd ?pre"
  let ?one = "save_images example_env (n_id ?nt) (1 + 1) [v_images ?p ! 1] ?dbj"
  let ?db2 = "snd ?one"
  have h1: "s_intent (parse ?F) = ''submit''" by (simp add: parse_submit)
  have h3: "ServerNoteEditorSchema ?p = []"
    by (simp add: ServerNoteEditorSchema_def z_string_min_max_def z_array_def)
  have "\<not> isl ?sn" by code_simp
  then have h4: "?sn = Inr (?nt, ?db1)" by (cases ?sn) simp_all
  have h5: "1 < length (v_images ?p)" by simp
  have "fst ?pre = None" by code_simp
  then have h6: "?pre = (None, ?dbj)" by (simp add: prod_eq_iff)
  have "fst ?one = Some (ENOENT ''/tmp/b'')" by code_simp
  then have h7: "?one = (Some (ENOENT ''/tmp/b''), ?db2)" by (simp add: prod_eq_iff)
  have nid: "n_id ?nt = ''n1''" by code_simp
  have rows: "image_rows example_env ''n1'' 1 (take 1 (v_images ?p)) =
      [\<lparr>fileId = ''f1'', contentType = ''image/jpeg'', altText = None,
        createdAt = 8, updatedAt = 8, noteId = Some ''n1''\<rparr>]"
    by (simp add: image_data_def example_env_def example_upload_def)
  have ids: "file_ids example_env 1 (take 1 (v_images ?p)) = [''f1'']"
    by (simp add: example_env_def)
  have rd: "map (\<lambda>e. readFile example_env (filepath (f_image e))) (take 1 (v_images ?p)) =
      [Some [1, 2]]"
    by (simp add: example_env_def example_upload_def)
  note T = image_failure_keeps_note_and_earlier_rows [OF h1 refl h3 h4 h5 h6 h7]
  have a: "action example_env ''u1'' ?F example_db = (Thrown (ENOENT ''/tmp/b''), ?db2)"
    using T by (rule conjunct1)
  have n: "Note ?db2 (n_id ?nt) = Some \<lparr>ownerId = ''u1'', title = v_title ?p, content = v_content ?p\<rparr>"
    using T by (elim conjE)
  have i: "Image ?db2 = Image example_db @ image_rows example_env (n_id ?nt) 1 (take 1 (v_images ?p))"
    using T by (elim conjE)
  have f: "map (File ?db2) (file_ids example_env 1 (take 1 (v_images ?p))) =
      map (\<lambda>e. readFile example_env (filepath (f_image e))) (take 1 (v_images ?p))"
    using T by (elim conjE)
  have f1: "File ?db2 ''f1'' = Some [1, 2]"
    using f unfolding ids rd by simp
  have s: "snd (action example_env ''u1'' ?F example_db) = ?db2"
    "fst (action example_env ''u1'' ?F example_db) = Thrown (ENOENT ''/tmp/b'')"
    using a by simp_all
  show ?thesis
    unfolding s using n i f1 unfolding nid rows by simp
qed

end
